theory Spec2Isabelle
  imports Complex_Main
begin

section \<open>Shallow embedding of \<open>utils.py\<close>\<close>

text \<open>
  The module holds two angle conversions, \<open>show_animation\<close> and \<open>make_animation\<close>.
  The embedding follows \<open>make_animation\<close> statement by statement as far as its
  results are data: the axis limits, the sampling stride \<open>skip\<close>, and what the nested
  \<open>animate\<close> puts on the four artists for each frame number.

  \<^item> \<open>fps\<close>, \<open>n_seconds\<close> and \<open>decay_time\<close> are Python integers (\<open>int\<close>): the defaults
    are \<open>50\<close>, \<open>20\<close> and \<open>250\<close>, \<open>FuncAnimation\<close> iterates \<open>range(n_frames)\<close>, and
    \<open>start\<close> is used as a slice bound, so non-integral numbers do not get past the
    library.
  \<^item> Coordinates and paddings are Python floats, modelled as \<open>real\<close>; their rounding is
    not modelled (the angle conversions, whose claim is about rounding, get a model of
    float arithmetic of their own). The quotient \<open>total_frames / n_frames\<close> is a float too: for an array
    length below \<open>2^53\<close> the rounded quotient and the exact one have the same integer
    part, so \<open>int(...)\<close> is modelled on the exact quotient.
  \<^item> Every exception of the source is a value of \<open>py_error\<close>, and a function that may
    raise returns \<open>py_error + 'a\<close>.
  \<^item> \<open>save_path\<close> and \<open>circle_radius\<close> only reach the plotting library and are left
    out, as is what the library does with the frames (drawing, encoding, writing the
    file).
\<close>

subsection \<open>Exceptions\<close>

datatype py_error =
    ValueError string
  | IndexError
  | ZeroDivisionError

subsection \<open>Indexing and slicing of a one-dimensional array\<close>

text \<open>\<open>xs[i]\<close>: a negative index counts from the end, an index outside the array raises.\<close>

definition py_index :: "'a list \<Rightarrow> int \<Rightarrow> py_error + 'a" where
  "py_index xs i =
     (if 0 \<le> i \<and> i < int (length xs) then Inr (xs ! nat i)
      else if i < 0 \<and> 0 \<le> i + int (length xs) then Inr (xs ! nat (i + int (length xs)))
      else Inl IndexError)"

text \<open>
  \<open>xs[start:stop:step]\<close> with all three bounds given. A bound is first brought into the
  array (\<open>adjust_bound\<close>), then \<open>slice_length\<close> elements are taken in steps of \<open>step\<close>.
  A step of zero raises \<open>ValueError\<close>.
\<close>

definition adjust_bound :: "int \<Rightarrow> int \<Rightarrow> int \<Rightarrow> int" where
  "adjust_bound len step v =
     (if v < 0 then
        (if v + len < 0 then (if step < 0 then - 1 else 0) else v + len)
      else if len \<le> v then (if step < 0 then len - 1 else len)
      else v)"

definition slice_length :: "int \<Rightarrow> int \<Rightarrow> int \<Rightarrow> int" where
  "slice_length start stop step =
     (if step < 0 then
        (if stop < start then (start - stop - 1) div (- step) + 1 else 0)
      else
        (if start < stop then (stop - start - 1) div step + 1 else 0))"

definition slice_indices :: "nat \<Rightarrow> int \<Rightarrow> int \<Rightarrow> int \<Rightarrow> py_error + int list" where
  "slice_indices len start stop step =
     (if step = 0 then Inl (ValueError ''slice step cannot be zero'')
      else
        (let b = adjust_bound (int len) step start;
             e = adjust_bound (int len) step stop
         in Inr (map (\<lambda>j. b + int j * step) [0..<nat (slice_length b e step)])))"

definition py_slice :: "'a list \<Rightarrow> int \<Rightarrow> int \<Rightarrow> int \<Rightarrow> py_error + 'a list" where
  "py_slice xs start stop step =
     (case slice_indices (length xs) start stop step of
        Inl err \<Rightarrow> Inl err
      | Inr js \<Rightarrow> Inr (map (\<lambda>j. xs ! nat j) js))"

subsection \<open>Reductions\<close>

text \<open>\<open>np.min\<close> and \<open>np.max\<close> of an empty array raise \<open>ValueError\<close>.\<close>

definition np_min :: "real list \<Rightarrow> py_error + real" where
  "np_min xs =
     (case xs of
        [] \<Rightarrow> Inl (ValueError ''zero-size array to reduction operation minimum which has no identity'')
      | x # rest \<Rightarrow> Inr (fold min rest x))"

definition np_max :: "real list \<Rightarrow> py_error + real" where
  "np_max xs =
     (case xs of
        [] \<Rightarrow> Inl (ValueError ''zero-size array to reduction operation maximum which has no identity'')
      | x # rest \<Rightarrow> Inr (fold max rest x))"

subsection \<open>The angle conversions\<close>

text \<open>
  \<open>rad_to_deg\<close> and \<open>deg_to_rad\<close> work on Python floats, that is IEEE 754 binary64
  numbers. A float is a finite value, an infinity or NaN. An arithmetic result is the
  exact real result rounded to the nearest number with a 53-bit significand, ties to
  the even significand (\<open>round_real\<close>; below \<open>2^-1022\<close> the spacing stays \<open>2^-1074\<close>); a
  rounded result of magnitude \<open>2^1024\<close> or more becomes an infinity (\<open>round_double\<close>).
  Float multiplication and division do not raise on overflow.
\<close>

datatype pyfloat = Fin real | PosInf | NegInf | NaN

definition expo :: "real \<Rightarrow> int" where
  "expo r = (if \<bar>r\<bar> < 2 powr (- 1022) then - 1022 else \<lfloor>log 2 \<bar>r\<bar>\<rfloor>)"

definition ulp :: "real \<Rightarrow> real" where
  "ulp r = 2 powr real_of_int (expo r - 52)"

definition round_half_even :: "real \<Rightarrow> int" where
  "round_half_even y =
     (let f = \<lfloor>y\<rfloor> in
      if y - of_int f < 1 / 2 then f
      else if 1 / 2 < y - of_int f then f + 1
      else if even f then f else f + 1)"

definition round_real :: "real \<Rightarrow> real" where
  "round_real r = of_int (round_half_even (r / ulp r)) * ulp r"

definition round_double :: "real \<Rightarrow> pyfloat" where
  "round_double r =
     (let v = round_real r in
      if 2 powr 1024 \<le> v then PosInf
      else if v \<le> - (2 powr 1024) then NegInf
      else Fin v)"

text \<open>\<open>np.pi\<close> is the float \<open>0x1.921fb54442d18p+1\<close>.\<close>

definition np_pi :: real where
  "np_pi = 884279719003555 / 2 ^ 48"

text \<open>
  \<open>x * c\<close> and \<open>x / c\<close> for a finite positive constant \<open>c\<close> (here \<open>180\<close>, which converts
  to the float \<open>180.0\<close> exactly, and \<open>np.pi\<close>): infinities and NaN pass through.
\<close>

definition mul_const :: "pyfloat \<Rightarrow> real \<Rightarrow> pyfloat" where
  "mul_const x c =
     (case x of Fin r \<Rightarrow> round_double (r * c) | PosInf \<Rightarrow> PosInf | NegInf \<Rightarrow> NegInf | NaN \<Rightarrow> NaN)"

definition div_const :: "pyfloat \<Rightarrow> real \<Rightarrow> pyfloat" where
  "div_const x c =
     (case x of Fin r \<Rightarrow> round_double (r / c) | PosInf \<Rightarrow> PosInf | NegInf \<Rightarrow> NegInf | NaN \<Rightarrow> NaN)"

text \<open>Line 22, \<open>x * 180 / np.pi\<close>, and line 32, \<open>x * np.pi / 180\<close>.\<close>

definition rad_to_deg :: "pyfloat \<Rightarrow> pyfloat" where
  "rad_to_deg x = div_const (mul_const x 180) np_pi"

definition deg_to_rad :: "pyfloat \<Rightarrow> pyfloat" where
  "deg_to_rad x = div_const (mul_const x np_pi) 180"

text \<open>
  The tolerance of the specification: the result is a finite float less than \<open>1e-9\<close>
  away from \<open>x\<close>.
\<close>

definition within_tolerance :: "pyfloat \<Rightarrow> real \<Rightarrow> bool" where
  "within_tolerance y x = (case y of Fin v \<Rightarrow> \<bar>v - x\<bar> < 1 / 10 ^ 9 | PosInf \<Rightarrow> False | NegInf \<Rightarrow> False | NaN \<Rightarrow> False)"

subsection \<open>The sampling stride\<close>

text \<open>\<open>int(x)\<close> of a float: the integer part, rounded towards zero.\<close>

definition py_int :: "real \<Rightarrow> int" where
  "py_int x = (if x < 0 then \<lceil>x\<rceil> else \<lfloor>x\<rfloor>)"

text \<open>\<open>a / b\<close> on integers: true division, \<open>ZeroDivisionError\<close> for \<open>b = 0\<close>.\<close>

definition py_truediv :: "int \<Rightarrow> int \<Rightarrow> py_error + real" where
  "py_truediv a b = (if b = 0 then Inl ZeroDivisionError else Inr (real_of_int a / real_of_int b))"

text \<open>
  Lines 120 to 127: \<open>total_frames = len(t)\<close>, \<open>n_frames = fps * n_seconds\<close>,
  \<open>skip = int(total_frames / n_frames)\<close>.
\<close>

definition n_frames_of :: "int \<Rightarrow> int \<Rightarrow> int" where
  "n_frames_of fps n_seconds = fps * n_seconds"

definition compute_skip :: "real list \<Rightarrow> int \<Rightarrow> int \<Rightarrow> py_error + int" where
  "compute_skip t fps n_seconds =
     (let total_frames = int (length t);
          n_frames = n_frames_of fps n_seconds
      in case py_truediv total_frames n_frames of
           Inl err \<Rightarrow> Inl err
         | Inr q \<Rightarrow> Inr (py_int q))"

subsection \<open>The frame update \<open>animate\<close>\<close>

text \<open>
  \<open>position\<close> unpacks into the four coordinate rows. A frame is what \<open>animate\<close> leaves
  on the artists: the data of the two lines and the offsets of the two scatters
  (\<open>np.array([xs, ys]).T\<close> is the list of pairs).
\<close>

record position =
  x1 :: "real list"
  y1 :: "real list"
  x2 :: "real list"
  y2 :: "real list"

record frame =
  line1 :: "real list \<times> real list"
  line2 :: "real list \<times> real list"
  scatter1 :: "(real \<times> real) list"
  scatter2 :: "(real \<times> real) list"

definition frame_index :: "int \<Rightarrow> int \<Rightarrow> int" where
  "frame_index skip frame_number = frame_number * skip"

definition trace_start :: "int \<Rightarrow> int \<Rightarrow> int \<Rightarrow> int" where
  "trace_start decay_time skip i = (let trace_length = decay_time * skip in max 0 (i - trace_length))"

definition animate :: "position \<Rightarrow> int \<Rightarrow> int \<Rightarrow> int \<Rightarrow> py_error + frame" where
  "animate pos skip decay_time frame_number =
     (let i = frame_index skip frame_number in
      case py_index (x1 pos) i of Inl err \<Rightarrow> Inl err | Inr x1i \<Rightarrow>
      case py_index (y1 pos) i of Inl err \<Rightarrow> Inl err | Inr y1i \<Rightarrow>
      case py_index (x2 pos) i of Inl err \<Rightarrow> Inl err | Inr x2i \<Rightarrow>
      case py_index (y2 pos) i of Inl err \<Rightarrow> Inl err | Inr y2i \<Rightarrow>
      (let start = trace_start decay_time skip i in
       case py_slice (x1 pos) start i skip of Inl err \<Rightarrow> Inl err | Inr tx1 \<Rightarrow>
       case py_slice (y1 pos) start i skip of Inl err \<Rightarrow> Inl err | Inr ty1 \<Rightarrow>
       case py_slice (x2 pos) start i skip of Inl err \<Rightarrow> Inl err | Inr tx2 \<Rightarrow>
       case py_slice (y2 pos) start i skip of Inl err \<Rightarrow> Inl err | Inr ty2 \<Rightarrow>
         Inr \<lparr> line1 = ([0, x1i], [0, y1i]),
               line2 = ([x1i, x2i], [y1i, y2i]),
               scatter1 = zip tx1 ty1,
               scatter2 = zip tx2 ty2 \<rparr>))"

text \<open>
  \<open>FuncAnimation(fig, animate, frames=n_frames)\<close> and \<open>ani.save\<close> call \<open>animate\<close> on
  \<open>range(n_frames)\<close> in increasing order; the first exception ends the run.
\<close>

definition py_range :: "int \<Rightarrow> int list" where
  "py_range n = [0..n - 1]"

fun run_frames :: "position \<Rightarrow> int \<Rightarrow> int \<Rightarrow> int list \<Rightarrow> py_error + frame list" where
  "run_frames pos skip decay_time [] = Inr []"
| "run_frames pos skip decay_time (k # ks) =
     (case animate pos skip decay_time k of
        Inl err \<Rightarrow> Inl err
      | Inr f \<Rightarrow>
          (case run_frames pos skip decay_time ks of
             Inl err \<Rightarrow> Inl err
           | Inr fs \<Rightarrow> Inr (f # fs)))"

subsection \<open>Axis limits\<close>

text \<open>
  \<open>xpad\<close> and \<open>ypad\<close> are optional floats. \<open>xlim\<close> and \<open>ylim\<close> are annotated as floats and
  handed to \<open>plt.xlim\<close> / \<open>plt.ylim\<close>, which take either one number (the lower limit;
  the upper one stays) or a pair (lower, upper). \<open>not v\<close> and \<open>if v\<close> are Python's
  truth test: \<open>None\<close> and \<open>0.0\<close> are false, a pair is true.
\<close>

datatype lim_arg = Scalar real | Pair real real

definition truthy_float :: "real \<Rightarrow> bool" where
  "truthy_float p = (p \<noteq> 0)"

definition truthy_lim :: "lim_arg \<Rightarrow> bool" where
  "truthy_lim a = (case a of Scalar l \<Rightarrow> l \<noteq> 0 | Pair l r \<Rightarrow> True)"

definition set_lim :: "lim_arg \<Rightarrow> real \<times> real \<Rightarrow> real \<times> real" where
  "set_lim a old = (case a of Scalar l \<Rightarrow> (l, snd old) | Pair l r \<Rightarrow> (l, r))"

text \<open>Lines 99 to 102: \<open>if not xpad: xpad = 0.1 * abs(x_min)\<close>.\<close>

definition choose_pad :: "real option \<Rightarrow> real \<Rightarrow> real" where
  "choose_pad pad lo =
     (case pad of
        None \<Rightarrow> 0.1 * \<bar>lo\<bar>
      | Some p \<Rightarrow> if \<not> truthy_float p then 0.1 * \<bar>lo\<bar> else p)"

text \<open>
  Lines 105 to 112: \<open>plt.xlim(x_min - xpad, x_max + xpad)\<close>, then
  \<open>if xlim: plt.xlim(xlim)\<close>; the same for the vertical axis.
\<close>

definition axis_limits :: "real \<Rightarrow> real \<Rightarrow> real option \<Rightarrow> lim_arg option \<Rightarrow> real \<times> real" where
  "axis_limits lo hi pad explicit =
     (let p = choose_pad pad lo;
          auto_lim = (lo - p, hi + p)
      in case explicit of
           None \<Rightarrow> auto_lim
         | Some a \<Rightarrow> if truthy_lim a then set_lim a auto_lim else auto_lim)"

subsection \<open>\<open>make_animation\<close>\<close>

record animation =
  xlim_final :: "real \<times> real"
  ylim_final :: "real \<times> real"
  skip_used :: int
  frames :: "frame list"

definition make_animation ::
  "real list \<Rightarrow> position \<Rightarrow> int \<Rightarrow> int \<Rightarrow> int \<Rightarrow> real option \<Rightarrow> real option \<Rightarrow>
   lim_arg option \<Rightarrow> lim_arg option \<Rightarrow> py_error + animation" where
  "make_animation t pos fps n_seconds decay_time xpad ypad xlim ylim =
     (case np_min (x2 pos) of Inl err \<Rightarrow> Inl err | Inr x_min \<Rightarrow>
      case np_max (x2 pos) of Inl err \<Rightarrow> Inl err | Inr x_max \<Rightarrow>
      case np_min (y2 pos) of Inl err \<Rightarrow> Inl err | Inr y_min \<Rightarrow>
      case np_max (y2 pos) of Inl err \<Rightarrow> Inl err | Inr y_max \<Rightarrow>
      case compute_skip t fps n_seconds of Inl err \<Rightarrow> Inl err | Inr skip \<Rightarrow>
      case run_frames pos skip decay_time (py_range (n_frames_of fps n_seconds)) of
        Inl err \<Rightarrow> Inl err
      | Inr fs \<Rightarrow>
          Inr \<lparr> xlim_final = axis_limits x_min x_max xpad xlim,
                ylim_final = axis_limits y_min y_max ypad ylim,
                skip_used = skip,
                frames = fs \<rparr>)"

subsection \<open>\<open>show_animation\<close>\<close>

text \<open>
  A Python value returned by \<open>show_animation\<close> is \<open>None\<close> or an \<open>IPython.display.HTML\<close>
  object holding its markup.
\<close>

datatype py_value = PyNone | HTML string

definition show_animation :: "string \<Rightarrow> py_value" where
  "show_animation animation_path =
     HTML (''<img alt='' @ [CHR 0x22] @ ''spring double pendulum animation'' @ [CHR 0x22]
           @ '' src='' @ animation_path @ ''>'')"

subsection \<open>Reference definitions following the specification\<close>

text \<open>
  The specification describes the trace window in words: every \<open>stride\<close>-th sample
  from the history start up to, but excluding, the frame's index. \<open>window_indices\<close>
  writes that down directly, as the indices \<open>j\<close> of \<open>start \<le> j < stop\<close> whose distance
  from \<open>start\<close> is a multiple of the step. It is compared with \<open>slice_indices\<close> below.
\<close>

definition window_indices :: "int \<Rightarrow> int \<Rightarrow> int \<Rightarrow> int list" where
  "window_indices start stop step = filter (\<lambda>j. (j - start) mod step = 0) [start..stop - 1]"

text \<open>
  The frame of the specification's algorithm (steps 2 to 4) for output frame \<open>k\<close>:
  index \<open>i = k * stride\<close>, the two segments at \<open>i\<close>, and for each point the samples of
  the trace window starting at \<open>max 0 (i - decay_length * stride)\<close>.
\<close>

definition spec_trace :: "real list \<Rightarrow> real list \<Rightarrow> int \<Rightarrow> int \<Rightarrow> int \<Rightarrow> (real \<times> real) list" where
  "spec_trace xs ys decay_length stride i =
     map (\<lambda>j. (xs ! nat j, ys ! nat j))
       (window_indices (max 0 (i - decay_length * stride)) i stride)"

definition spec_frame :: "position \<Rightarrow> int \<Rightarrow> int \<Rightarrow> int \<Rightarrow> frame" where
  "spec_frame pos stride decay_length k =
     (let i = k * stride in
      \<lparr> line1 = ([0, x1 pos ! nat i], [0, y1 pos ! nat i]),
        line2 = ([x1 pos ! nat i, x2 pos ! nat i], [y1 pos ! nat i, y2 pos ! nat i]),
        scatter1 = spec_trace (x1 pos) (y1 pos) decay_length stride i,
        scatter2 = spec_trace (x2 pos) (y2 pos) decay_length stride i \<rparr>)"

section \<open>Auxiliary facts\<close>

lemma py_int_div_pos:
  assumes "0 \<le> a" and "0 < b"
  shows "py_int (real_of_int a / real_of_int b) = a div b"
proof -
  have "0 \<le> real_of_int a / real_of_int b" using assms by simp
  then show ?thesis
    by (simp add: py_int_def floor_divide_of_int_eq)
qed

lemma compute_skip_pos:
  assumes "0 < n_frames_of fps n_seconds"
  shows "compute_skip t fps n_seconds = Inr (int (length t) div n_frames_of fps n_seconds)"
  using assms py_int_div_pos [of "int (length t)" "n_frames_of fps n_seconds"]
  by (simp add: compute_skip_def py_truediv_def)

lemma strict_sorted_steps:
  assumes "0 < (step::int)"
  shows "sorted_wrt (<) (map (\<lambda>j. b + int j * step) [0..<n])"
  using assms by (simp add: sorted_wrt_map sorted_wrt_iff_nth_less)

lemma strict_sorted_window: "sorted_wrt (<) (window_indices b e step)"
  unfolding window_indices_def
  by (rule sorted_wrt_filter) (simp add: strict_sorted_iff)

lemma set_steps_window:
  assumes "0 < (step::int)" and "b < e"
  shows "set (map (\<lambda>j. b + int j * step) [0..<nat ((e - b - 1) div step + 1)])
         = set (window_indices b e step)"
proof (intro set_eqI iffI)
  fix x
  assume "x \<in> set (map (\<lambda>j. b + int j * step) [0..<nat ((e - b - 1) div step + 1)])"
  then obtain j where j: "j < nat ((e - b - 1) div step + 1)" and x: "x = b + int j * step"
    by auto
  from j have "int j \<le> (e - b - 1) div step" by linarith
  then have "int j * step \<le> ((e - b - 1) div step) * step"
    using assms(1) by (simp add: mult_right_mono)
  also have "\<dots> \<le> e - b - 1"
    using div_mult_mod_eq [of "e - b - 1" step] pos_mod_sign [OF assms(1), of "e - b - 1"]
    by linarith
  finally have "x \<le> e - 1" using x by linarith
  moreover have "b \<le> x" using x assms(1) by simp
  moreover have "(x - b) mod step = 0" using x by simp
  ultimately show "x \<in> set (window_indices b e step)"
    by (simp add: window_indices_def)
next
  fix x
  assume "x \<in> set (window_indices b e step)"
  then have bx: "b \<le> x" and xe: "x \<le> e - 1" and m: "(x - b) mod step = 0"
    by (auto simp: window_indices_def)
  define q where "q = (x - b) div step"
  have xq: "x = b + q * step"
    using div_mult_mod_eq [of "x - b" step] m unfolding q_def by simp
  have q0: "0 \<le> q"
    unfolding q_def using bx assms(1) by (simp add: pos_imp_zdiv_nonneg_iff)
  have "q \<le> (e - b - 1) div step"
    unfolding q_def using xe assms(1) by (intro zdiv_mono1) auto
  then have "nat q \<in> {0..<nat ((e - b - 1) div step + 1)}" using q0 by simp
  moreover have "x = b + int (nat q) * step" using xq q0 by simp
  ultimately have "x \<in> (\<lambda>j. b + int j * step) ` {0..<nat ((e - b - 1) div step + 1)}"
    by (rule_tac x = "nat q" in image_eqI)
  then show "x \<in> set (map (\<lambda>j. b + int j * step) [0..<nat ((e - b - 1) div step + 1)])"
    by simp
qed

lemma steps_eq_window:
  assumes "0 < (step::int)" and "b < e"
  shows "map (\<lambda>j. b + int j * step) [0..<nat ((e - b - 1) div step + 1)] = window_indices b e step"
proof (rule sorted_distinct_set_unique)
  show "sorted (map (\<lambda>j. b + int j * step) [0..<nat ((e - b - 1) div step + 1)])"
    using strict_sorted_steps [OF assms(1)] by (simp add: strict_sorted_iff)
  show "distinct (map (\<lambda>j. b + int j * step) [0..<nat ((e - b - 1) div step + 1)])"
    using strict_sorted_steps [OF assms(1)] by (simp add: strict_sorted_iff)
  show "sorted (window_indices b e step)"
    using strict_sorted_window by (simp add: strict_sorted_iff)
  show "distinct (window_indices b e step)"
    using strict_sorted_window by (simp add: strict_sorted_iff)
  show "set (map (\<lambda>j. b + int j * step) [0..<nat ((e - b - 1) div step + 1)]) = set (window_indices b e step)"
    by (rule set_steps_window [OF assms])
qed

lemma window_indices_empty: "e \<le> b \<Longrightarrow> window_indices b e step = []"
  by (simp add: window_indices_def)

lemma slice_indices_window:
  assumes "1 \<le> step" and "0 \<le> start" and "0 \<le> stop" and "stop < int len"
  shows "slice_indices len start stop step = Inr (window_indices start stop step)"
proof (cases "start < stop")
  case True
  then have "adjust_bound (int len) step start = start" "adjust_bound (int len) step stop = stop"
    using assms by (simp_all add: adjust_bound_def)
  moreover have "slice_length start stop step = (stop - start - 1) div step + 1"
    using True assms(1) by (simp add: slice_length_def)
  ultimately show ?thesis
    using assms(1) True by (simp add: slice_indices_def steps_eq_window)
next
  case False
  have e: "adjust_bound (int len) step stop = stop"
    using assms by (simp add: adjust_bound_def)
  have "stop \<le> adjust_bound (int len) step start"
    using False assms by (simp add: adjust_bound_def)
  then have "slice_length (adjust_bound (int len) step start) stop step = 0"
    using assms(1) by (simp add: slice_length_def)
  then show ?thesis
    using False assms(1) e by (simp add: slice_indices_def window_indices_empty)
qed


lemma np_min_nonempty: "xs \<noteq> [] \<Longrightarrow> np_min xs = Inr (Min (set xs))"
proof (cases xs)
  case (Cons a rest)
  then show ?thesis
    using Min.set_eq_fold [of a rest] by (simp add: np_min_def)
qed simp

lemma np_max_nonempty: "xs \<noteq> [] \<Longrightarrow> np_max xs = Inr (Max (set xs))"
proof (cases xs)
  case (Cons a rest)
  then show ?thesis
    using Max.set_eq_fold [of a rest] by (simp add: np_max_def)
qed simp

lemma py_index_zero: "xs \<noteq> [] \<Longrightarrow> py_index xs 0 = Inr (xs ! 0)"
  by (simp add: py_index_def)

lemma animate_zero_skip:
  assumes "x1 pos \<noteq> []" "y1 pos \<noteq> []" "x2 pos \<noteq> []" "y2 pos \<noteq> []"
  shows "animate pos 0 decay_time k = Inl (ValueError ''slice step cannot be zero'')"
  using assms
  by (simp add: animate_def frame_index_def py_index_zero py_slice_def slice_indices_def)

lemma py_range_pos: "0 < n \<Longrightarrow> py_range n = 0 # [1..n - 1]"
  by (simp add: py_range_def upto_rec1)

lemma py_int_div_neg:
  assumes "0 \<le> a" and "b < 0"
  shows "py_int (real_of_int a / real_of_int b) = \<lceil>real_of_int a / real_of_int b\<rceil>"
proof -
  define x where "x = real_of_int a / real_of_int b"
  have "x \<le> 0"
    unfolding x_def using assms by (simp add: divide_nonneg_neg)
  then consider "x < 0" | "x = 0" by linarith
  then have "py_int x = \<lceil>x\<rceil>"
    by cases (simp_all add: py_int_def)
  then show ?thesis by (simp add: x_def)
qed

lemma compute_skip_neg:
  assumes "n_frames_of fps n_seconds < 0"
  shows "compute_skip t fps n_seconds
         = Inr \<lceil>real (length t) / real_of_int (n_frames_of fps n_seconds)\<rceil>"
  using assms py_int_div_neg [of "int (length t)" "n_frames_of fps n_seconds"]
  by (simp add: compute_skip_def py_truediv_def)

lemma compute_skip_zero:
  assumes "n_frames_of fps n_seconds = 0"
  shows "compute_skip t fps n_seconds = Inl ZeroDivisionError"
  using assms by (simp add: compute_skip_def py_truediv_def)

lemma py_index_in_range:
  "0 \<le> i \<Longrightarrow> i < int (length xs) \<Longrightarrow> py_index xs i = Inr (xs ! nat i)"
  by (simp add: py_index_def)

lemma py_index_success:
  assumes "0 \<le> i" and "py_index xs i = Inr v"
  shows "i < int (length xs)"
  using assms by (simp add: py_index_def split: if_splits)

lemma py_slice_window:
  assumes "1 \<le> step" and "0 \<le> start" and "0 \<le> stop" and "stop < int (length xs)"
  shows "py_slice xs start stop step
         = Inr (map (\<lambda>j. xs ! nat j) (window_indices start stop step))"
  by (simp add: py_slice_def slice_indices_window [OF assms])

lemma trace_start_eq: "trace_start decay_time skip i = max 0 (i - decay_time * skip)"
  by (simp add: trace_start_def)

lemma zip_window:
  "zip (map f W) (map g W) = map (\<lambda>j. (f j, g j)) W"
  by (induction W) simp_all

lemma animate_in_range:
  assumes "1 \<le> skip" and "0 \<le> k"
    and "k * skip < int (length (x1 pos))" and "k * skip < int (length (y1 pos))"
    and "k * skip < int (length (x2 pos))" and "k * skip < int (length (y2 pos))"
  shows "animate pos skip decay_time k = Inr (spec_frame pos skip decay_time k)"
proof -
  have i: "0 \<le> k * skip" using assms(1,2) by simp
  have s: "0 \<le> max 0 (k * skip - decay_time * skip)" by simp
  show ?thesis
    using assms(3-6)
    by (simp add: animate_def frame_index_def trace_start_eq spec_frame_def spec_trace_def
        py_index_in_range [OF i] py_slice_window [OF assms(1) s i] zip_window Let_def)
qed

lemma animate_reads_in_range:
  assumes "0 \<le> skip" and "0 \<le> k" and "animate pos skip decay_time k = Inr f"
  shows "k * skip < int (length (x1 pos)) \<and> k * skip < int (length (y1 pos)) \<and>
         k * skip < int (length (x2 pos)) \<and> k * skip < int (length (y2 pos))"
proof -
  have i: "0 \<le> frame_index skip k" using assms(1,2) by (simp add: frame_index_def)
  obtain a b c d where
    a: "py_index (x1 pos) (frame_index skip k) = Inr a" and
    b: "py_index (y1 pos) (frame_index skip k) = Inr b" and
    c: "py_index (x2 pos) (frame_index skip k) = Inr c" and
    d: "py_index (y2 pos) (frame_index skip k) = Inr d"
    using assms(3) by (auto simp: animate_def Let_def split: sum.splits)
  show ?thesis
    using py_index_success [OF i a] py_index_success [OF i b]
      py_index_success [OF i c] py_index_success [OF i d]
    by (simp add: frame_index_def)
qed

lemma animate_skip_nonzero:
  assumes "animate pos skip decay_time k = Inr f"
  shows "skip \<noteq> 0"
proof
  assume "skip = 0"
  then have "py_slice (x1 pos) (trace_start decay_time skip (frame_index skip k))
               (frame_index skip k) skip = Inl (ValueError ''slice step cannot be zero'')"
    by (simp add: py_slice_def slice_indices_def)
  then show False
    using assms by (auto simp: animate_def Let_def split: sum.splits)
qed

lemma animate_success:
  assumes "1 \<le> skip" and "0 \<le> k" and "animate pos skip decay_time k = Inr f"
  shows "f = spec_frame pos skip decay_time k"
proof -
  have "0 \<le> skip" using assms(1) by simp
  from animate_reads_in_range [OF this assms(2,3)]
  have "animate pos skip decay_time k = Inr (spec_frame pos skip decay_time k)"
    using animate_in_range [OF assms(1,2)] by simp
  then show ?thesis using assms(3) by simp
qed

lemma run_frames_all:
  "(\<And>k. k \<in> set ks \<Longrightarrow> animate pos skip decay_time k = Inr (g k)) \<Longrightarrow>
   run_frames pos skip decay_time ks = Inr (map g ks)"
  by (induction ks) simp_all

lemma length_py_range: "length (py_range n) = nat n"
  by (simp add: py_range_def)

lemma nth_py_range: "j < nat n \<Longrightarrow> py_range n ! j = int j"
  by (simp add: py_range_def nth_upto)

lemma set_py_range: "set (py_range n) = {k. 0 \<le> k \<and> k < n}"
  by (auto simp: py_range_def)

lemma np_min_success: "np_min xs = Inr m \<Longrightarrow> xs \<noteq> [] \<and> m = Min (set xs)"
  using np_min_nonempty [of xs] by (cases xs) (simp_all add: np_min_def)

lemma np_max_success: "np_max xs = Inr m \<Longrightarrow> xs \<noteq> [] \<and> m = Max (set xs)"
  using np_max_nonempty [of xs] by (cases xs) (simp_all add: np_max_def)

lemma make_animation_success:
  assumes "make_animation t pos fps n_seconds decay_time xpad ypad xlim ylim = Inr a"
  shows "x2 pos \<noteq> [] \<and> y2 pos \<noteq> [] \<and>
         compute_skip t fps n_seconds = Inr (skip_used a) \<and>
         run_frames pos (skip_used a) decay_time (py_range (n_frames_of fps n_seconds))
           = Inr (frames a) \<and>
         xlim_final a = axis_limits (Min (set (x2 pos))) (Max (set (x2 pos))) xpad xlim \<and>
         ylim_final a = axis_limits (Min (set (y2 pos))) (Max (set (y2 pos))) ypad ylim"
  using assms
  by (auto simp: make_animation_def split: sum.splits dest!: np_min_success np_max_success)

lemma length_window_le:
  assumes "1 \<le> s" and "0 \<le> d"
  shows "int (length (window_indices (max 0 (i - d * s)) i s)) \<le> d"
proof (cases "max 0 (i - d * s) < i")
  case True
  define b where "b = max 0 (i - d * s)"
  have s: "0 < s" using assms(1) by simp
  have len: "int (length (window_indices b i s)) = (i - b - 1) div s + 1"
  proof -
    have "0 \<le> (i - b - 1) div s"
      using True s by (simp add: b_def pos_imp_zdiv_nonneg_iff)
    then show ?thesis
      using steps_eq_window [OF s, of b i, symmetric] True by (simp add: b_def)
  qed
  have "(i - b - 1) div s < d"
  proof (rule ccontr)
    assume "\<not> (i - b - 1) div s < d"
    then have "d * s \<le> (i - b - 1) div s * s"
      using s by (simp add: mult_right_mono)
    also have "\<dots> \<le> i - b - 1"
      using div_mult_mod_eq [of "i - b - 1" s] pos_mod_sign [OF s, of "i - b - 1"] by linarith
    finally show False by (simp add: b_def)
  qed
  then show ?thesis using len by (simp add: b_def)
next
  case False
  then have "i \<le> max 0 (i - d * s)" by linarith
  from window_indices_empty [OF this] show ?thesis using assms(2) by simp
qed

lemma window_indices_range:
  "j \<in> set (window_indices b e s) \<Longrightarrow> b \<le> j \<and> j < e"
  by (auto simp: window_indices_def)

lemma compute_skip_ge_1:
  assumes "compute_skip t fps n_seconds = Inr s" and "1 \<le> s"
  shows "0 < fps * n_seconds \<and> s = int (length t) div (fps * n_seconds) \<and>
         fps * n_seconds * s \<le> int (length t)"
proof -
  consider (pos) "0 < n_frames_of fps n_seconds" | (zero) "n_frames_of fps n_seconds = 0"
    | (neg) "n_frames_of fps n_seconds < 0"
    by linarith
  then show ?thesis
  proof cases
    case pos
    then have n: "0 < fps * n_seconds" by (simp add: n_frames_of_def)
    have s: "s = int (length t) div (fps * n_seconds)"
      using assms(1) compute_skip_pos [OF pos, of t] by (simp add: n_frames_of_def)
    have "int (length t) div (fps * n_seconds) * (fps * n_seconds) \<le> int (length t)"
      using div_mult_mod_eq [of "int (length t)" "fps * n_seconds"]
        pos_mod_sign [OF n, of "int (length t)"]
      by linarith
    then have "fps * n_seconds * s \<le> int (length t)"
      using s by (simp only: mult.commute)
    with n s show ?thesis by blast
  next
    case zero
    then show ?thesis using assms(1) compute_skip_zero [OF zero, of t] by simp
  next
    case neg
    have "real (length t) / real_of_int (n_frames_of fps n_seconds) \<le> 0"
      using neg by (simp add: divide_nonneg_neg)
    then have "\<lceil>real (length t) / real_of_int (n_frames_of fps n_seconds)\<rceil> \<le> 0"
      by (simp add: ceiling_le_zero)
    moreover have "s = \<lceil>real (length t) / real_of_int (n_frames_of fps n_seconds)\<rceil>"
      using assms(1) compute_skip_neg [OF neg, of t] by simp
    ultimately have "s \<le> 0" by (simp only:)
    then show ?thesis using assms(2) by simp
  qed
qed

lemma frame_index_bound:
  assumes "1 \<le> s" and "n * s \<le> N" and "0 \<le> k" and "k < n"
  shows "0 \<le> k * s \<and> k * s < (N::int)"
proof -
  have "k + 1 \<le> n" using assms(4) by simp
  then have "(k + 1) * s \<le> n * s"
    using assms(1) by (intro mult_right_mono) simp_all
  then have "k * s + s \<le> N" using assms(2) by (simp add: algebra_simps)
  then show ?thesis using assms(1,3) by simp
qed

lemma strict_sorted_frame_indices:
  assumes "1 \<le> s"
  shows "sorted_wrt (<) (map (frame_index s) (py_range n))"
proof -
  have "sorted_wrt (\<lambda>a b. frame_index s a < frame_index s b) [0..n - 1]"
  proof (rule sorted_wrt_mono_rel [OF _ sorted_wrt_upto])
    fix a b :: int
    assume "a < b"
    then show "frame_index s a < frame_index s b"
      using assms by (simp add: frame_index_def)
  qed
  then show ?thesis
    by (simp add: sorted_wrt_map py_range_def)
qed

lemma axis_limits_zero_pad: "axis_limits lo hi (Some 0) explicit = axis_limits lo hi None explicit"
  by (simp add: axis_limits_def choose_pad_def truthy_float_def)

lemma skip_of_frame:
  assumes "compute_skip t fps n_seconds = Inr s"
    and "k \<in> set (py_range (fps * n_seconds))"
    and "animate pos s decay_time k = Inr f"
  shows "1 \<le> s \<and> 0 \<le> k"
proof -
  from assms(2) have k: "0 \<le> k" "k < fps * n_seconds"
    by (simp_all add: set_py_range)
  then have n: "0 < n_frames_of fps n_seconds" by (simp add: n_frames_of_def)
  have "s = int (length t) div n_frames_of fps n_seconds"
    using assms(1) compute_skip_pos [OF n, of t] by simp
  then have "0 \<le> s"
    using n by (simp add: pos_imp_zdiv_nonneg_iff)
  moreover have "s \<noteq> 0"
    using assms(3) by (rule animate_skip_nonzero)
  ultimately show ?thesis using k(1) by simp
qed

text \<open>The definitions unfolded when the model is run on a concrete input.\<close>

lemmas eval_defs = make_animation_def np_min_def np_max_def compute_skip_def py_truediv_def
      py_int_def n_frames_of_def py_range_def upto.simps animate_def frame_index_def
      py_index_def trace_start_def py_slice_def slice_indices_def adjust_bound_def
      slice_length_def axis_limits_def choose_pad_def truthy_lim_def set_lim_def

lemma round_half_even_error: "\<bar>real_of_int (round_half_even y) - y\<bar> \<le> 1 / 2"
  unfolding round_half_even_def Let_def by (auto; linarith)

lemma round_half_even_ge_floor: "\<lfloor>y\<rfloor> \<le> round_half_even y"
  unfolding round_half_even_def Let_def by auto

lemma round_half_even_of_int: "round_half_even (of_int n) = n"
  unfolding round_half_even_def Let_def by simp

lemma ulp_pos: "0 < ulp r"
  by (simp add: ulp_def)

lemma two_powr_expo_le:
  assumes "2 powr (- 1022) \<le> \<bar>r\<bar>"
  shows "2 powr real_of_int (expo r) \<le> \<bar>r\<bar>"
proof -
  have pos: "0 < \<bar>r\<bar>"
    using assms powr_gt_zero [of 2 "- 1022"] by linarith
  have "real_of_int \<lfloor>log 2 \<bar>r\<bar>\<rfloor> \<le> log 2 \<bar>r\<bar>" by simp
  then have "2 powr real_of_int \<lfloor>log 2 \<bar>r\<bar>\<rfloor> \<le> 2 powr log 2 \<bar>r\<bar>"
    by (simp only: powr_le_cancel_iff) 
  also have "\<dots> = \<bar>r\<bar>" using pos by simp
  finally show ?thesis using assms by (simp add: expo_def)
qed

lemma half_ulp_bound: "ulp r / 2 \<le> \<bar>r\<bar> * 2 powr (- 53) + 2 powr (- 1075)"
proof (cases "\<bar>r\<bar> < 2 powr (- 1022)")
  case True
  then have "ulp r = 2 powr (- 1074)" by (simp add: ulp_def expo_def)
  moreover have "(2::real) powr (- 1074) / 2 = 2 powr (- 1075)"
    by (simp add: powr_minus field_simps)
  moreover have "0 \<le> \<bar>r\<bar> * 2 powr (- 53)" by simp
  ultimately show ?thesis by linarith
next
  case False
  then have "2 powr real_of_int (expo r) \<le> \<bar>r\<bar>"
    by (intro two_powr_expo_le) simp
  then have "2 powr real_of_int (expo r) * 2 powr (- 53) \<le> \<bar>r\<bar> * 2 powr (- 53)"
    by (intro mult_right_mono) simp_all
  moreover have "ulp r / 2 = 2 powr real_of_int (expo r) * 2 powr (- 53)"
    by (simp add: ulp_def powr_diff powr_minus field_simps)
  moreover have "0 \<le> (2::real) powr (- 1075)" by simp
  ultimately show ?thesis by linarith
qed

lemma round_real_error: "\<bar>round_real r - r\<bar> \<le> \<bar>r\<bar> * 2 powr (- 53) + 2 powr (- 1075)"
proof -
  have "round_real r - r = (real_of_int (round_half_even (r / ulp r)) - r / ulp r) * ulp r"
    using ulp_pos [of r] by (simp add: round_real_def field_simps)
  then have "\<bar>round_real r - r\<bar> = \<bar>real_of_int (round_half_even (r / ulp r)) - r / ulp r\<bar> * ulp r"
    using ulp_pos [of r] by (simp add: abs_mult)
  also have "\<dots> \<le> 1 / 2 * ulp r"
    using round_half_even_error [of "r / ulp r"] ulp_pos [of r]
    by (intro mult_right_mono) simp_all
  finally show ?thesis using half_ulp_bound [of r] by simp
qed


lemma unit_roundoff_bound: "(2::real) powr (- 53) \<le> 12 / 100000000000000000"
  by (simp add: powr_minus)

lemma underflow_unit_bound: "(2::real) powr (- 1075) \<le> 1 / 100000000000000000000"
  by (simp add: powr_minus field_simps)

lemma round_real_error_le:
  assumes "\<bar>r\<bar> \<le> M"
  shows "\<bar>round_real r - r\<bar> \<le> M * (12 / 100000000000000000) + 1 / 100000000000000000000"
proof -
  have M: "0 \<le> M" using assms by linarith
  have "\<bar>r\<bar> * 2 powr (- 53) \<le> M * (12 / 100000000000000000)"
    using assms unit_roundoff_bound M by (intro mult_mono) simp_all
  then show ?thesis
    using round_real_error [of r] underflow_unit_bound by linarith
qed

lemma overflow_threshold_large: "(10000000000::real) < 2 powr 1024"
  by simp

lemma round_double_finite:
  assumes "\<bar>r\<bar> \<le> 1000000000"
  shows "round_double r = Fin (round_real r)"
proof -
  have "\<bar>round_real r - r\<bar> \<le> 1000000000 * (12 / 100000000000000000) + 1 / 100000000000000000000"
    by (rule round_real_error_le [OF assms])
  then have "\<bar>round_real r\<bar> < 10000000000"
    using assms by linarith
  then have "\<not> 2 powr 1024 \<le> round_real r" and "\<not> round_real r \<le> - (2 powr 1024)"
    using overflow_threshold_large by linarith+
  then show ?thesis by (simp add: round_double_def)
qed

lemma round_real_overflow:
  assumes "2 powr 1024 \<le> r"
  shows "2 powr 1024 \<le> round_real r"
proof -
  have r0: "0 < r" using assms powr_gt_zero [of 2 1024] by linarith
  have big: "\<not> \<bar>r\<bar> < 2 powr (- 1022)"
  proof -
    have "(2::real) powr (- 1022) \<le> 2 powr 1024" by (intro powr_mono) simp_all
    then show ?thesis using assms by linarith
  qed
  have absr: "\<bar>r\<bar> = r" using r0 by simp
  have "real_of_int 1024 \<le> log 2 r"
    using assms r0 by (simp add: le_log_iff)
  then have "1024 \<le> \<lfloor>log 2 r\<rfloor>"
    by (simp only: le_floor_iff)
  then have e: "1024 \<le> expo r"
    using big absr by (simp add: expo_def)
  have pe: "2 powr real_of_int (expo r) \<le> r"
    using two_powr_expo_le [of r] big absr by simp
  have split: "2 powr real_of_int (expo r) = 2 ^ 52 * ulp r"
    by (simp add: ulp_def powr_diff)
  then have "2 ^ 52 * ulp r \<le> r" using pe by simp
  then have "real_of_int (2 ^ 52) \<le> r / ulp r"
    using ulp_pos [of r] by (simp add: pos_le_divide_eq)
  then have "2 ^ 52 \<le> \<lfloor>r / ulp r\<rfloor>"
    by (simp only: le_floor_iff)
  then have "2 ^ 52 \<le> round_half_even (r / ulp r)"
    using round_half_even_ge_floor [of "r / ulp r"] by linarith
  then have "real_of_int (2 ^ 52) \<le> real_of_int (round_half_even (r / ulp r))"
    by (simp only: of_int_le_iff)
  then have "real_of_int (2 ^ 52) * ulp r \<le> round_real r"
    unfolding round_real_def using ulp_pos [of r] by (intro mult_right_mono) simp_all
  then have "2 powr real_of_int (expo r) \<le> round_real r"
    using split by simp
  moreover have "(2::real) powr 1024 \<le> 2 powr real_of_int (expo r)"
    using e by (intro powr_mono) simp_all
  ultimately show ?thesis by linarith
qed

lemma round_double_overflow: "2 powr 1024 \<le> r \<Longrightarrow> round_double r = PosInf"
  using round_real_overflow [of r] by (simp add: round_double_def)

lemma round_real_power_of_two:
  assumes "- 1022 \<le> e"
  shows "round_real (2 powr real_of_int e) = 2 powr real_of_int e"
proof -
  have "(2::real) powr (- 1022) \<le> 2 powr real_of_int e"
    using assms by (intro powr_mono) simp_all
  then have ex: "expo (2 powr real_of_int e) = e"
    by (simp add: expo_def)
  have u: "ulp (2 powr real_of_int e) = 2 powr (real_of_int e - 52)"
    by (simp add: ulp_def ex)
  have "2 powr real_of_int e / ulp (2 powr real_of_int e) = 2 powr 52"
    by (simp add: u powr_diff)
  then have q: "2 powr real_of_int e / ulp (2 powr real_of_int e) = real_of_int (2 ^ 52)"
    by simp
  have "round_real (2 powr real_of_int e) = real_of_int (2 ^ 52) * ulp (2 powr real_of_int e)"
    unfolding round_real_def q round_half_even_of_int ..
  also have "\<dots> = 2 powr real_of_int e"
    by (simp add: u powr_diff)
  finally show ?thesis .
qed


lemma np_pi_bounds: "314159 / 100000 \<le> np_pi \<and> np_pi \<le> 31416 / 10000"
  by (simp add: np_pi_def)

lemma abs_div_le:
  assumes "\<bar>y\<bar> \<le> Y" and "0 < lo" and "lo \<le> (p::real)"
  shows "\<bar>y / p\<bar> \<le> Y / lo"
proof -
  have "\<bar>y / p\<bar> = \<bar>y\<bar> / p" using assms(2,3) by simp
  also have "\<dots> \<le> Y / lo"
    using assms by (intro frac_le) simp_all
  finally show ?thesis .
qed

lemma abs_mult_le:
  assumes "\<bar>y\<bar> \<le> Y" and "0 \<le> p" and "p \<le> (hi::real)"
  shows "\<bar>y * p\<bar> \<le> Y * hi"
proof -
  have "\<bar>y * p\<bar> = \<bar>y\<bar> * p" using assms(2) by (simp add: abs_mult)
  also have "\<dots> \<le> Y * hi"
    using assms by (intro mult_mono) simp_all
  finally show ?thesis .
qed

lemma round_trip_error:
  assumes "\<bar>x\<bar> \<le> 1000000"
  shows "rad_to_deg (deg_to_rad (Fin x))
           = Fin (round_real (round_real (round_real (round_real (x * np_pi) / 180) * 180) / np_pi)) \<and>
         \<bar>round_real (round_real (round_real (round_real (x * np_pi) / 180) * 180) / np_pi) - x\<bar>
           < 1 / 10 ^ 9"
proof -
  define r1 where "r1 = x * np_pi"
  define a where "a = round_real r1"
  define b where "b = round_real (a / 180)"
  define c where "c = round_real (b * 180)"
  define r4 where "r4 = c / np_pi"
  define d where "d = round_real r4"
  have lo: "314159 / 100000 \<le> np_pi" and hi: "np_pi \<le> 31416 / 10000"
    using np_pi_bounds by simp_all
  have p0: "0 < np_pi" using lo by linarith
  have m1: "\<bar>r1\<bar> \<le> 3141600"
    using abs_mult_le [OF assms _ hi] p0 by (simp add: r1_def)
  have e1: "\<bar>a - r1\<bar> \<le> 3141600 * (12 / 100000000000000000) + 1 / 100000000000000000000"
    unfolding a_def by (rule round_real_error_le [OF m1])
  have f1: "round_double r1 = Fin a"
    unfolding a_def using m1 by (intro round_double_finite) linarith
  have m2: "\<bar>a / 180\<bar> \<le> 17454"
    using m1 e1 by linarith
  have e2: "\<bar>b - a / 180\<bar> \<le> 17454 * (12 / 100000000000000000) + 1 / 100000000000000000000"
    unfolding b_def by (rule round_real_error_le [OF m2])
  have f2: "round_double (a / 180) = Fin b"
    unfolding b_def using m2 by (intro round_double_finite) linarith
  have m3: "\<bar>b * 180\<bar> \<le> 3141900"
    using m2 e2 by linarith
  have e3: "\<bar>c - b * 180\<bar> \<le> 3141900 * (12 / 100000000000000000) + 1 / 100000000000000000000"
    unfolding c_def by (rule round_real_error_le [OF m3])
  have f3: "round_double (b * 180) = Fin c"
    unfolding c_def using m3 by (intro round_double_finite) linarith
  have mc: "\<bar>c\<bar> \<le> 3141901"
    using m3 e3 by linarith
  have "\<bar>r4\<bar> \<le> 3141901 / (314159 / 100000)"
    unfolding r4_def by (rule abs_div_le [OF mc _ lo]) simp
  then have m4: "\<bar>r4\<bar> \<le> 1000100" by simp
  have e4: "\<bar>d - r4\<bar> \<le> 1000100 * (12 / 100000000000000000) + 1 / 100000000000000000000"
    unfolding d_def by (rule round_real_error_le [OF m4])
  have f4: "round_double r4 = Fin d"
    unfolding d_def using m4 by (intro round_double_finite) linarith
  have s: "\<bar>c - r1\<bar> \<le> 12 / 10000000000"
    using e1 e2 e3 by linarith
  have "r4 - x = (c - r1) / np_pi"
    using p0 by (simp add: r4_def r1_def field_simps)
  moreover have "\<bar>(c - r1) / np_pi\<bar> \<le> (12 / 10000000000) / (314159 / 100000)"
    by (rule abs_div_le [OF s _ lo]) simp
  ultimately have "\<bar>r4 - x\<bar> \<le> 4 / 10000000000"
    by simp
  then have "\<bar>d - x\<bar> < 1 / 1000000000"
    using e4 by linarith
  moreover have "rad_to_deg (deg_to_rad (Fin x)) = Fin d"
    using f1 f2 f3 f4
    by (simp add: rad_to_deg_def deg_to_rad_def mul_const_def div_const_def r1_def r4_def)
  ultimately show ?thesis
    by (simp add: d_def r4_def c_def b_def a_def r1_def)
qed


lemma round_real_eval:
  assumes "2 powr real_of_int e \<le> \<bar>r\<bar>" and "\<bar>r\<bar> < 2 powr real_of_int (e + 1)"
    and "- 1022 \<le> e"
    and "round_half_even (r / 2 powr real_of_int (e - 52)) = n"
  shows "round_real r = real_of_int n * 2 powr real_of_int (e - 52)"
proof -
  have r0: "0 < \<bar>r\<bar>"
    using assms(1) powr_gt_zero [of 2 "real_of_int e"] by linarith
  have "(2::real) powr (- 1022) \<le> 2 powr real_of_int e"
    using assms(3) by (intro powr_mono) simp_all
  then have big: "\<not> \<bar>r\<bar> < 2 powr (- 1022)" using assms(1) by linarith
  have "real_of_int e \<le> log 2 \<bar>r\<bar>"
    using assms(1) r0 by (simp add: le_log_iff)
  moreover have "log 2 \<bar>r\<bar> < real_of_int e + 1"
    using assms(2) r0 by (simp add: log_less_iff add.commute)
  ultimately have "\<lfloor>log 2 \<bar>r\<bar>\<rfloor> = e" by (rule floor_unique)
  then have "expo r = e" using big by (simp add: expo_def)
  then show ?thesis
    using assms(4) by (simp add: round_real_def ulp_def)
qed

lemma round_real_sample_mul_pi:
  "round_real (2885612923668019 / 33554432 * np_pi) = 2266355090524803 / 8388608"
proof -
  have "round_real (2885612923668019 / 33554432 * np_pi)
        = real_of_int 4532710181049606 * 2 powr real_of_int (28 - 52)"
    by (rule round_real_eval) (simp_all add: np_pi_def round_half_even_def Let_def powr_minus)
  then show ?thesis by (simp add: powr_minus)
qed

lemma round_real_sample_div_180:
  "round_real (2266355090524803 / 8388608 / 180) = 3223260573190831 / 2147483648"
proof -
  have "round_real (2266355090524803 / 8388608 / 180)
        = real_of_int 6446521146381662 * 2 powr real_of_int (20 - 52)"
    by (rule round_real_eval) (simp_all add: round_half_even_def Let_def powr_minus)
  then show ?thesis by (simp add: powr_minus)
qed

lemma round_real_sample_mul_180:
  "round_real (3223260573190831 / 2147483648 * 180) = 2266355090524803 / 8388608"
proof -
  have "round_real (3223260573190831 / 2147483648 * 180)
        = real_of_int 4532710181049606 * 2 powr real_of_int (28 - 52)"
    by (rule round_real_eval) (simp_all add: round_half_even_def Let_def powr_minus)
  then show ?thesis by (simp add: powr_minus)
qed

lemma round_real_sample_div_pi:
  "round_real (2266355090524803 / 8388608 / np_pi) = 5771225847336037 / 67108864"
proof -
  have "round_real (2266355090524803 / 8388608 / np_pi)
        = real_of_int 5771225847336037 * 2 powr real_of_int (26 - 52)"
    by (rule round_real_eval) (simp_all add: np_pi_def round_half_even_def Let_def powr_minus)
  then show ?thesis by (simp add: powr_minus)
qed

lemma round_real_sample_input:
  "round_real (2885612923668019 / 33554432) = 2885612923668019 / 33554432"
proof -
  have "round_real (2885612923668019 / 33554432)
        = real_of_int 5771225847336038 * 2 powr real_of_int (26 - 52)"
    by (rule round_real_eval) (simp_all add: round_half_even_def Let_def powr_minus)
  then show ?thesis by (simp add: powr_minus)
qed

lemma deg_to_rad_overflow:
  assumes "2 powr 1024 \<le> x * np_pi"
  shows "rad_to_deg (deg_to_rad (Fin x)) = PosInf"
  using round_double_overflow [OF assms]
  by (simp add: rad_to_deg_def deg_to_rad_def mul_const_def div_const_def)

lemma pi_overflow_at_2_1023: "(2::real) powr 1024 \<le> 2 powr 1023 * np_pi"
proof -
  have "(2::real) powr 1024 = 2 powr 1023 * 2"
    by simp
  also have "\<dots> \<le> 2 powr 1023 * np_pi"
    using np_pi_bounds by (intro mult_left_mono) simp_all
  finally show ?thesis .
qed

lemma double_2_1023: "round_double (2 powr 1023) = Fin (2 powr 1023)"
proof -
  have "round_real (2 powr real_of_int 1023) = 2 powr real_of_int 1023"
    by (rule round_real_power_of_two) simp
  then have r: "round_real (2 powr 1023) = 2 powr 1023" by simp
  have "(2::real) powr 1023 < 2 powr 1024" by simp
  moreover have "- ((2::real) powr 1024) < 2 powr 1023" by simp
  ultimately show ?thesis
    unfolding round_double_def r Let_def by simp
qed

section \<open>The claims\<close>

subsection \<open>The sampling stride\<close>

text \<open>
  C1 (amended). \<open>make_animation\<close> has no check of the requested frame count. When
  \<open>fps * n_seconds\<close> exceeds the number of samples (and the position rows are not
  empty), the stride is computed as \<open>0\<close> and the run ends in the first call of
  \<open>animate\<close> with Python's own \<open>ValueError\<close> "slice step cannot be zero", raised by the
  trace slice; no error of the module's own is raised.
\<close>

theorem oversampling_raises_slice_error:
  assumes "int (length t) < fps * n_seconds"
    and "x1 pos \<noteq> []" and "y1 pos \<noteq> []" and "x2 pos \<noteq> []" and "y2 pos \<noteq> []"
  shows "compute_skip t fps n_seconds = Inr 0 \<and>
         make_animation t pos fps n_seconds decay_time xpad ypad xlim ylim
           = Inl (ValueError ''slice step cannot be zero'')"
proof -
  have n: "0 < n_frames_of fps n_seconds"
    using assms(1) by (simp add: n_frames_of_def)
  have "int (length t) div n_frames_of fps n_seconds = 0"
    using assms(1) by (simp add: n_frames_of_def div_pos_pos_trivial)
  then have skip: "compute_skip t fps n_seconds = Inr 0"
    using compute_skip_pos [OF n] by simp
  have "run_frames pos 0 decay_time (py_range (n_frames_of fps n_seconds))
        = Inl (ValueError ''slice step cannot be zero'')"
    using assms(2-5) by (simp add: py_range_pos [OF n] animate_zero_skip)
  then show ?thesis
    using skip assms(4,5)
    by (simp add: make_animation_def np_min_nonempty np_max_nonempty)
qed

theorem oversampling_raises_slice_error_witness:
  "int (length [0::real, 1]) < 3 * 1 \<and>
   compute_skip [0, 1] 3 1 = Inr 0 \<and>
   make_animation [0, 1] \<lparr>x1 = [1, 2], y1 = [5, 6], x2 = [9, 8], y2 = [3, 4]\<rparr> 3 1 250
       None None None None
     = Inl (ValueError ''slice step cannot be zero'')"
  using oversampling_raises_slice_error
    [of "[0, 1]" 3 1 "\<lparr>x1 = [1, 2], y1 = [5, 6], x2 = [9, 8], y2 = [3, 4]\<rparr>" 250 None None None None]
  by simp

text \<open>
  One sample, two requested frames: the error that comes out is the slicing error.
\<close>

theorem oversampling_counterexample:
  "n_frames_of 2 1 > int (length [0::real]) \<and>
   make_animation [0] \<lparr>x1 = [1], y1 = [5], x2 = [9], y2 = [13]\<rparr> 2 1 250 None None None None
     = Inl (ValueError ''slice step cannot be zero'')"
  by (simp add: make_animation_def np_min_def np_max_def compute_skip_def py_truediv_def
      py_int_def n_frames_of_def py_range_def upto.simps animate_def frame_index_def
      py_index_def trace_start_def py_slice_def slice_indices_def)

text \<open>
  C2 (amended). Whenever a stride is computed, it is at least \<open>1\<close> exactly if
  \<open>0 < fps * n_seconds \<le> N\<close>; when the requested frame count exceeds \<open>N\<close> the stride
  is \<open>0\<close>, it is not raised to \<open>1\<close>.
\<close>

theorem stride_positive_iff:
  assumes "compute_skip t fps n_seconds = Inr s"
  shows "(1 \<le> s \<longleftrightarrow> 0 < fps * n_seconds \<and> fps * n_seconds \<le> int (length t)) \<and>
         (int (length t) < fps * n_seconds \<longrightarrow> s = 0)"
proof -
  consider (pos) "0 < n_frames_of fps n_seconds" | (zero) "n_frames_of fps n_seconds = 0"
    | (neg) "n_frames_of fps n_seconds < 0"
    by linarith
  then show ?thesis
  proof cases
    case pos
    then have s: "s = int (length t) div (fps * n_seconds)" and n: "0 < fps * n_seconds"
      using assms compute_skip_pos [OF pos] by (simp_all add: n_frames_of_def)
    have "1 \<le> s \<longleftrightarrow> fps * n_seconds \<le> int (length t)"
      using pos_imp_zdiv_pos_iff [OF n, of "int (length t)"] s by linarith
    moreover have "int (length t) < fps * n_seconds \<longrightarrow> s = 0"
      using s by (simp add: div_pos_pos_trivial)
    ultimately show ?thesis using n by simp
  next
    case zero
    then show ?thesis using assms compute_skip_zero [OF zero] by simp
  next
    case neg
    have "real (length t) / real_of_int (n_frames_of fps n_seconds) \<le> 0"
      using neg by (simp add: divide_nonneg_neg)
    then have "\<lceil>real (length t) / real_of_int (n_frames_of fps n_seconds)\<rceil> \<le> 0"
      by (simp add: ceiling_le_zero)
    moreover have "s = \<lceil>real (length t) / real_of_int (n_frames_of fps n_seconds)\<rceil>"
      using assms compute_skip_neg [OF neg, of t] by simp
    ultimately have "s \<le> 0" by (simp only:)
    then show ?thesis using neg by (simp add: n_frames_of_def)
  qed
qed

theorem stride_positive_iff_witness:
  "compute_skip [0, 1, 2, 3] 2 1 = Inr 2 \<and>
   ((1::int) \<le> 2 \<longleftrightarrow> (0::int) < 2 * 1 \<and> 2 * 1 \<le> int (length [0::real, 1, 2, 3])) \<and>
   compute_skip [0] 2 1 = Inr 0 \<and> int (length [0::real]) < 2 * 1"
proof -
  have a: "compute_skip [0, 1, 2, 3] 2 1 = Inr 2"
    by (simp add: compute_skip_def py_truediv_def py_int_def n_frames_of_def)
  have b: "compute_skip [0] 2 1 = Inr 0"
    by (simp add: compute_skip_def py_truediv_def py_int_def n_frames_of_def)
  show ?thesis
    using stride_positive_iff [OF a] stride_positive_iff [OF b] a b by simp
qed

text \<open>One sample and two requested frames give the stride \<open>0\<close>.\<close>

theorem stride_zero_counterexample:
  "compute_skip [0] 2 1 = Inr 0"
  by (simp add: compute_skip_def py_truediv_def py_int_def n_frames_of_def)

text \<open>
  C3 (amended). For a positive frame count \<open>fps * n_seconds\<close> the stride is
  \<open>floor (N / (fps * n_seconds))\<close>. A frame count of zero raises
  \<open>ZeroDivisionError\<close>, and for a negative one the quotient is rounded towards zero
  (its ceiling), not down.
\<close>

theorem stride_is_floor:
  "(0 < fps * n_seconds \<longrightarrow>
      compute_skip t fps n_seconds = Inr \<lfloor>real (length t) / real_of_int (fps * n_seconds)\<rfloor>) \<and>
   (fps * n_seconds = 0 \<longrightarrow> compute_skip t fps n_seconds = Inl ZeroDivisionError) \<and>
   (fps * n_seconds < 0 \<longrightarrow>
      compute_skip t fps n_seconds = Inr \<lceil>real (length t) / real_of_int (fps * n_seconds)\<rceil>)"
proof (intro conjI impI)
  assume "0 < fps * n_seconds"
  then have "0 < n_frames_of fps n_seconds" by (simp add: n_frames_of_def)
  from compute_skip_pos [OF this, of t]
  show "compute_skip t fps n_seconds = Inr \<lfloor>real (length t) / real_of_int (fps * n_seconds)\<rfloor>"
    using floor_divide_of_int_eq [of "int (length t)" "fps * n_seconds", where ?'a = real]
    by (simp add: n_frames_of_def)
next
  assume "fps * n_seconds = 0"
  then show "compute_skip t fps n_seconds = Inl ZeroDivisionError"
    by (simp add: compute_skip_zero n_frames_of_def)
next
  assume "fps * n_seconds < 0"
  then have "n_frames_of fps n_seconds < 0" by (simp add: n_frames_of_def)
  from compute_skip_neg [OF this, of t]
  show "compute_skip t fps n_seconds = Inr \<lceil>real (length t) / real_of_int (fps * n_seconds)\<rceil>"
    by (simp add: n_frames_of_def)
qed

theorem stride_is_floor_witness:
  "(0::int) < 50 * 20 \<and> compute_skip (replicate 2500 0) 50 20 = Inr 2 \<and>
   compute_skip [0] 0 20 = Inl ZeroDivisionError \<and>
   compute_skip [0, 1, 2] (- 1) 2 = Inr (- 1)"
  using stride_is_floor [of 50 20 "replicate 2500 0"] stride_is_floor [of 0 20 "[0]"]
    stride_is_floor [of "- 1" 2 "[0, 1, 2]"]
  by simp

text \<open>
  A duration of zero seconds raises; with \<open>fps = - 1\<close> and three samples the stride is
  \<open>- 1\<close> while the floor of the quotient is \<open>- 2\<close>.
\<close>

theorem stride_floor_counterexample:
  "compute_skip [0] 0 20 = Inl ZeroDivisionError \<and>
   compute_skip [0, 1, 2] (- 1) 2 = Inr (- 1) \<and>
   \<lfloor>real (length [0::real, 1, 2]) / real_of_int (- 1 * 2)\<rfloor> = - 2"
  by (simp add: compute_skip_def py_truediv_def py_int_def n_frames_of_def)

subsection \<open>Frames\<close>

text \<open>
  C4. On a valid input (the four position rows as long as the time array) with a
  computed stride \<open>s \<ge> 1\<close> (which forces \<open>N \<ge> 1\<close>), \<open>make_animation\<close> runs through:
  it produces \<open>fps * n_seconds\<close> frames, frame \<open>k\<close> shows the samples at index \<open>k * s\<close>,
  that index is below \<open>N\<close>, and the indices over \<open>range(fps * n_seconds)\<close> are
  \<open>0, s, 2s, ...\<close> in strictly increasing order.
\<close>

theorem frame_indices_are_multiples_of_stride:
  assumes "length (x1 pos) = length t" and "length (y1 pos) = length t"
    and "length (x2 pos) = length t" and "length (y2 pos) = length t"
    and "compute_skip t fps n_seconds = Inr s" and "1 \<le> s"
  shows "\<exists>a. make_animation t pos fps n_seconds decay_time xpad ypad xlim ylim = Inr a \<and>
           skip_used a = s \<and> length (frames a) = nat (fps * n_seconds) \<and>
           (\<forall>k < nat (fps * n_seconds).
              int k * s < int (length t) \<and>
              line1 (frames a ! k)
                = ([0, x1 pos ! nat (int k * s)], [0, y1 pos ! nat (int k * s)]) \<and>
              line2 (frames a ! k)
                = ([x1 pos ! nat (int k * s), x2 pos ! nat (int k * s)],
                   [y1 pos ! nat (int k * s), y2 pos ! nat (int k * s)])) \<and>
           map (frame_index s) (py_range (fps * n_seconds))
             = map (\<lambda>k. k * s) [0..fps * n_seconds - 1] \<and>
           sorted_wrt (<) (map (frame_index s) (py_range (fps * n_seconds)))"
proof -
  from compute_skip_ge_1 [OF assms(5,6)]
  have n: "0 < fps * n_seconds" and ns: "fps * n_seconds * s \<le> int (length t)"
    by blast+
  have bound: "0 \<le> k * s \<and> k * s < int (length t)" if "0 \<le> k" "k < fps * n_seconds" for k
    using frame_index_bound [OF assms(6) ns that] .
  have "t \<noteq> []" using bound [of 0] n by auto
  then have ne: "x2 pos \<noteq> []" "y2 pos \<noteq> []"
    using assms(3,4) by auto
  have each: "animate pos s decay_time k = Inr (spec_frame pos s decay_time k)"
    if "k \<in> set (py_range (n_frames_of fps n_seconds))" for k
  proof -
    from that have k: "0 \<le> k" "k < fps * n_seconds"
      by (simp_all add: set_py_range n_frames_of_def)
    show ?thesis
      using animate_in_range [OF assms(6) k(1), of pos decay_time] bound [OF k] assms(1-4)
      by simp
  qed
  define a where "a = \<lparr> xlim_final = axis_limits (Min (set (x2 pos))) (Max (set (x2 pos))) xpad xlim,
      ylim_final = axis_limits (Min (set (y2 pos))) (Max (set (y2 pos))) ypad ylim,
      skip_used = s,
      frames = map (spec_frame pos s decay_time) (py_range (n_frames_of fps n_seconds)) \<rparr>"
  have run: "make_animation t pos fps n_seconds decay_time xpad ypad xlim ylim = Inr a"
    using run_frames_all [of "py_range (n_frames_of fps n_seconds)" pos s decay_time
        "spec_frame pos s decay_time", OF each] assms(5) ne
    by (simp add: make_animation_def np_min_nonempty np_max_nonempty a_def)
  have len: "length (frames a) = nat (fps * n_seconds)"
    by (simp add: a_def length_py_range n_frames_of_def)
  have fr: "frames a ! k = spec_frame pos s decay_time (int k)" if "k < nat (fps * n_seconds)" for k
    using that by (simp add: a_def length_py_range nth_py_range n_frames_of_def)
  have per: "int k * s < int (length t) \<and>
              line1 (frames a ! k)
                = ([0, x1 pos ! nat (int k * s)], [0, y1 pos ! nat (int k * s)]) \<and>
              line2 (frames a ! k)
                = ([x1 pos ! nat (int k * s), x2 pos ! nat (int k * s)],
                   [y1 pos ! nat (int k * s), y2 pos ! nat (int k * s)])"
    if "k < nat (fps * n_seconds)" for k
    using fr [OF that] bound [of "int k"] that by (simp add: spec_frame_def Let_def)
  have "map (frame_index s) (py_range (fps * n_seconds)) = map (\<lambda>k. k * s) [0..fps * n_seconds - 1]"
    by (simp add: py_range_def frame_index_def)
  then show ?thesis
    using run len per strict_sorted_frame_indices [OF assms(6), of "fps * n_seconds"]
    by (intro exI [of _ a]) (simp add: a_def)
qed

theorem frame_indices_are_multiples_of_stride_witness:
  "compute_skip [0, 1, 2, 3] 2 1 = Inr 2 \<and>
   (\<exists>a. make_animation [0, 1, 2, 3]
          \<lparr>x1 = [1, 2, 3, 4], y1 = [5, 6, 7, 8], x2 = [9, 10, 11, 12], y2 = [13, 14, 15, 16]\<rparr>
          2 1 1 None None None None = Inr a \<and>
        skip_used a = 2 \<and> length (frames a) = 2 \<and>
        line1 (frames a ! 1) = ([0, 3], [0, 7]))"
proof -
  have c: "compute_skip [0, 1, 2, 3] 2 1 = Inr 2"
    by (simp add: compute_skip_def py_truediv_def py_int_def n_frames_of_def)
  have "\<exists>a. make_animation [0, 1, 2, 3]
          \<lparr>x1 = [1, 2, 3, 4], y1 = [5, 6, 7, 8], x2 = [9, 10, 11, 12], y2 = [13, 14, 15, 16]\<rparr>
          2 1 1 None None None None = Inr a \<and>
        skip_used a = 2 \<and> length (frames a) = 2 \<and>
        (\<forall>k<2. line1 (frames a ! k)
                = ([0, [1, 2, 3, 4] ! nat (int k * 2)], [0, [5, 6, 7, 8] ! nat (int k * 2)]))"
    using frame_indices_are_multiples_of_stride
      [of "\<lparr>x1 = [1, 2, 3, 4], y1 = [5, 6, 7, 8], x2 = [9, 10, 11, 12], y2 = [13, 14, 15, 16]\<rparr>"
        "[0, 1, 2, 3]" 2 1 2 1 None None None None, OF _ _ _ _ c]
    by auto
  then obtain a where a: "make_animation [0, 1, 2, 3]
          \<lparr>x1 = [1, 2, 3, 4], y1 = [5, 6, 7, 8], x2 = [9, 10, 11, 12], y2 = [13, 14, 15, 16]\<rparr>
          2 1 1 None None None None = Inr a" "skip_used a = 2" "length (frames a) = 2"
      "\<forall>k<2. line1 (frames a ! k)
                = ([0, [1, 2, 3, 4] ! nat (int k * 2)], [0, [5, 6, 7, 8] ! nat (int k * 2)])"
    by blast
  from a(4) have "line1 (frames a ! 1) = ([0, 3], [0, 7])"
    by (simp add: nat_mult_distrib)
  with a(1-3) c show ?thesis by blast
qed

text \<open>
  C5. For every frame that \<open>animate\<close> produces when \<open>make_animation\<close> calls it (stride
  \<open>skip\<close> as computed, frame number \<open>k\<close> in \<open>range(fps * n_seconds)\<close>), with source
  index \<open>i = k * skip\<close>: the trace of each point is the slice \<open>[start:i:skip]\<close> of its
  coordinate rows with \<open>start = max 0 (i - decay_time * skip)\<close>, and that slice
  consists of the samples at every \<open>skip\<close>-th index from \<open>start\<close> up to, but excluding,
  \<open>i\<close> (\<open>window_indices\<close>).
\<close>

theorem trace_window_is_strided_slice:
  assumes "compute_skip t fps n_seconds = Inr s"
    and "k \<in> set (py_range (fps * n_seconds))"
    and "animate pos s decay_time k = Inr f"
  shows "(let i = k * s;
              start = max 0 (i - decay_time * s);
              W = window_indices start i s
          in (\<forall>r \<in> {x1 pos, y1 pos, x2 pos, y2 pos}.
                py_slice r start i s = Inr (map (\<lambda>j. r ! nat j) W)) \<and>
             scatter1 f = map (\<lambda>j. (x1 pos ! nat j, y1 pos ! nat j)) W \<and>
             scatter2 f = map (\<lambda>j. (x2 pos ! nat j, y2 pos ! nat j)) W)"
proof -
  define i where "i = k * s"
  define W where "W = window_indices (max 0 (i - decay_time * s)) i s"
  from skip_of_frame [OF assms]
  have s1: "1 \<le> s" and k0: "0 \<le> k"
    by simp_all
  have s0: "0 \<le> s" using s1 by simp
  have i0: "0 \<le> i" using s0 k0 by (simp add: i_def)
  have b0: "0 \<le> max 0 (i - decay_time * s)" by simp
  from animate_reads_in_range [OF s0 k0 assms(3)]
  have rng: "\<forall>r \<in> {x1 pos, y1 pos, x2 pos, y2 pos}. i < int (length r)"
    by (simp add: i_def)
  have sl: "\<forall>r \<in> {x1 pos, y1 pos, x2 pos, y2 pos}.
              py_slice r (max 0 (i - decay_time * s)) i s = Inr (map (\<lambda>j. r ! nat j) W)"
  proof
    fix r assume "r \<in> {x1 pos, y1 pos, x2 pos, y2 pos}"
    with rng have "i < int (length r)" by blast
    from py_slice_window [OF s1 b0 i0 this]
    show "py_slice r (max 0 (i - decay_time * s)) i s = Inr (map (\<lambda>j. r ! nat j) W)"
      by (simp add: W_def)
  qed
  have "f = spec_frame pos s decay_time k"
    using animate_success [OF s1 k0 assms(3)] .
  then have sc: "scatter1 f = map (\<lambda>j. (x1 pos ! nat j, y1 pos ! nat j)) W"
    "scatter2 f = map (\<lambda>j. (x2 pos ! nat j, y2 pos ! nat j)) W"
    by (simp_all add: spec_frame_def spec_trace_def Let_def i_def W_def)
  from sl sc show ?thesis
    unfolding Let_def W_def i_def by blast
qed

theorem trace_window_is_strided_slice_witness:
  "compute_skip [0, 1, 2, 3] 2 1 = Inr 2 \<and> 1 \<in> set (py_range (2 * 1)) \<and>
   animate \<lparr>x1 = [1, 2, 3, 4], y1 = [5, 6, 7, 8], x2 = [9, 10, 11, 12], y2 = [13, 14, 15, 16]\<rparr>
     2 1 1
   = Inr \<lparr> line1 = ([0, 3], [0, 7]), line2 = ([3, 11], [7, 15]),
           scatter1 = [(1, 5)], scatter2 = [(9, 13)] \<rparr> \<and>
   window_indices (max 0 (1 * 2 - 1 * 2)) (1 * 2) 2 = [0] \<and>
   py_slice [1, 2, 3, 4 :: real] (max 0 (1 * 2 - 1 * 2)) (1 * 2) 2 = Inr [1]"
proof -
  have c: "compute_skip [0, 1, 2, 3] 2 1 = Inr 2"
    by (simp add: eval_defs)
  have k: "1 \<in> set (py_range (2 * 1))"
    by (simp add: py_range_def)
  have an: "animate \<lparr>x1 = [1, 2, 3, 4], y1 = [5, 6, 7, 8], x2 = [9, 10, 11, 12], y2 = [13, 14, 15, 16]\<rparr>
     2 1 1
   = Inr \<lparr> line1 = ([0, 3], [0, 7]), line2 = ([3, 11], [7, 15]),
           scatter1 = [(1, 5)], scatter2 = [(9, 13)] \<rparr>"
    by (simp add: eval_defs)
  have w: "window_indices (max 0 (1 * 2 - 1 * 2)) (1 * 2) 2 = [0]"
    by (simp add: window_indices_def upto.simps)
  from trace_window_is_strided_slice [OF c k an] c k an w show ?thesis
    by (simp add: Let_def)
qed

text \<open>
  C6. For a frame \<open>k \<ge> 0\<close> with stride at least \<open>1\<close> and \<open>decay_time \<ge> 0\<close>, each trace
  holds at most \<open>decay_time\<close> samples, the window start is not negative, and every
  index the four slices read lies inside its row (none is below \<open>0\<close>).
\<close>

theorem trace_window_bounded:
  assumes "1 \<le> skip" and "0 \<le> decay_time" and "0 \<le> k"
    and "animate pos skip decay_time k = Inr f"
  shows "int (length (scatter1 f)) \<le> decay_time \<and> int (length (scatter2 f)) \<le> decay_time \<and>
         0 \<le> trace_start decay_time skip (frame_index skip k) \<and>
         (\<forall>r \<in> {x1 pos, y1 pos, x2 pos, y2 pos}.
            \<exists>js. slice_indices (length r) (trace_start decay_time skip (frame_index skip k))
                   (frame_index skip k) skip = Inr js \<and>
                 int (length js) \<le> decay_time \<and>
                 (\<forall>j \<in> set js. 0 \<le> j \<and> j < int (length r)))"
proof -
  define i where "i = k * skip"
  define W where "W = window_indices (max 0 (i - decay_time * skip)) i skip"
  have s0: "0 \<le> skip" using assms(1) by simp
  have i0: "0 \<le> i" using s0 assms(3) by (simp add: i_def)
  have b0: "0 \<le> max 0 (i - decay_time * skip)" by simp
  have lenW: "int (length W) \<le> decay_time"
    unfolding W_def by (rule length_window_le [OF assms(1,2)])
  have inW: "0 \<le> j \<and> j < i" if "j \<in> set W" for j
    using window_indices_range [of j "max 0 (i - decay_time * skip)" i skip] that
    by (simp add: W_def)
  from animate_reads_in_range [OF s0 assms(3,4)]
  have rng: "\<forall>r \<in> {x1 pos, y1 pos, x2 pos, y2 pos}. i < int (length r)"
    by (simp add: i_def)
  have idx: "\<forall>r \<in> {x1 pos, y1 pos, x2 pos, y2 pos}.
            \<exists>js. slice_indices (length r) (trace_start decay_time skip (frame_index skip k))
                   (frame_index skip k) skip = Inr js \<and>
                 int (length js) \<le> decay_time \<and>
                 (\<forall>j \<in> set js. 0 \<le> j \<and> j < int (length r))"
  proof
    fix r assume "r \<in> {x1 pos, y1 pos, x2 pos, y2 pos}"
    with rng have r: "i < int (length r)" by blast
    have "slice_indices (length r) (trace_start decay_time skip (frame_index skip k))
            (frame_index skip k) skip = Inr W"
      using slice_indices_window [OF assms(1) b0 i0 r]
      by (simp add: trace_start_eq frame_index_def i_def W_def)
    moreover have "\<forall>j \<in> set W. 0 \<le> j \<and> j < int (length r)"
      using inW r by fastforce
    ultimately show "\<exists>js. slice_indices (length r) (trace_start decay_time skip (frame_index skip k))
                   (frame_index skip k) skip = Inr js \<and>
                 int (length js) \<le> decay_time \<and>
                 (\<forall>j \<in> set js. 0 \<le> j \<and> j < int (length r))"
      using lenW by blast
  qed
  have "f = spec_frame pos skip decay_time k"
    using animate_success [OF assms(1,3,4)] .
  then have "length (scatter1 f) = length W" and "length (scatter2 f) = length W"
    by (simp_all add: spec_frame_def spec_trace_def Let_def i_def W_def)
  moreover have "0 \<le> trace_start decay_time skip (frame_index skip k)"
    by (simp add: trace_start_eq)
  ultimately show ?thesis using lenW idx by simp
qed

theorem trace_window_bounded_witness:
  "(1::int) \<le> 1 \<and> (0::int) \<le> 2 \<and> (0::int) \<le> 3 \<and>
   animate \<lparr>x1 = [1, 2, 3, 4], y1 = [5, 6, 7, 8], x2 = [9, 10, 11, 12], y2 = [13, 14, 15, 16]\<rparr>
     1 2 3
   = Inr \<lparr> line1 = ([0, 4], [0, 8]), line2 = ([4, 12], [8, 16]),
           scatter1 = [(2, 6), (3, 7)], scatter2 = [(10, 14), (11, 15)] \<rparr> \<and>
   int (length [(2, 6), (3, 7) :: real \<times> real]) \<le> 2 \<and>
   (0::int) \<le> trace_start 2 1 (frame_index 1 3)"
proof -
  have an: "animate \<lparr>x1 = [1, 2, 3, 4], y1 = [5, 6, 7, 8], x2 = [9, 10, 11, 12], y2 = [13, 14, 15, 16]\<rparr>
     1 2 3
   = Inr \<lparr> line1 = ([0, 4], [0, 8]), line2 = ([4, 12], [8, 16]),
           scatter1 = [(2, 6), (3, 7)], scatter2 = [(10, 14), (11, 15)] \<rparr>"
    by (simp add: eval_defs eval_nat_numeral)
  have h: "(1::int) \<le> 1" "(0::int) \<le> 2" "(0::int) \<le> 3" by simp_all
  from trace_window_bounded [OF h an] an show ?thesis
    by simp
qed

subsection \<open>Axis limits and padding\<close>

text \<open>
  C8. An explicit \<open>xlim\<close> / \<open>ylim\<close> is meant to take precedence over the computed box: the
  docstring says that \<open>xlim\<close> specifies the limits and that \<open>xpad\<close> does nothing once
  \<open>xlim\<close> is given. The code tests \<open>if xlim:\<close>, though, which is false for \<open>0.0\<close>. On the
  input below an explicit \<open>xlim = 0.0\<close> is dropped and the computed box \<open>(- 11, 21)\<close>
  stays, while \<open>xlim = 5.0\<close> and \<open>xlim = (0, 5)\<close> on the same data are applied.
\<close>

theorem scalar_zero_limit_ignored:
  "make_animation [0, 1] \<lparr>x1 = [1, 2], y1 = [3, 4], x2 = [- 10, 20], y2 = [- 20, 10]\<rparr>
     1 1 0 None None (Some (Scalar 0)) None
   = Inr \<lparr> xlim_final = (- 11, 21), ylim_final = (- 22, 12), skip_used = 2,
           frames = [\<lparr> line1 = ([0, 1], [0, 3]), line2 = ([1, - 10], [3, - 20]),
                       scatter1 = [], scatter2 = [] \<rparr>] \<rparr> \<and>
   make_animation [0, 1] \<lparr>x1 = [1, 2], y1 = [3, 4], x2 = [- 10, 20], y2 = [- 20, 10]\<rparr>
     1 1 0 None None (Some (Scalar 5)) None
   = Inr \<lparr> xlim_final = (5, 21), ylim_final = (- 22, 12), skip_used = 2,
           frames = [\<lparr> line1 = ([0, 1], [0, 3]), line2 = ([1, - 10], [3, - 20]),
                       scatter1 = [], scatter2 = [] \<rparr>] \<rparr> \<and>
   make_animation [0, 1] \<lparr>x1 = [1, 2], y1 = [3, 4], x2 = [- 10, 20], y2 = [- 20, 10]\<rparr>
     1 1 0 None None (Some (Pair 0 5)) None
   = Inr \<lparr> xlim_final = (0, 5), ylim_final = (- 22, 12), skip_used = 2,
           frames = [\<lparr> line1 = ([0, 1], [0, 3]), line2 = ([1, - 10], [3, - 20]),
                       scatter1 = [], scatter2 = [] \<rparr>] \<rparr>"
  by (simp add: eval_defs)

text \<open>
  C9. At the interface of \<open>make_animation\<close> (no explicit limits), a padding of \<open>0.0\<close>
  does not give the unpadded box: the limits are the minimum and maximum widened by
  \<open>0.1 * \<bar>minimum\<bar>\<close>, which differs from the unpadded box whenever the minimum is not
  \<open>0\<close>, whereas any other padding \<open>p\<close> is used as given. The whole call with padding
  \<open>0.0\<close> equals the call without a padding.
\<close>

theorem zero_padding_replaced_by_default:
  assumes "make_animation t pos fps n_seconds decay_time xpad ypad None None = Inr a"
  shows "(xpad = Some 0 \<longrightarrow>
            xlim_final a = (Min (set (x2 pos)) - 0.1 * \<bar>Min (set (x2 pos))\<bar>,
                            Max (set (x2 pos)) + 0.1 * \<bar>Min (set (x2 pos))\<bar>)) \<and>
         (ypad = Some 0 \<longrightarrow>
            ylim_final a = (Min (set (y2 pos)) - 0.1 * \<bar>Min (set (y2 pos))\<bar>,
                            Max (set (y2 pos)) + 0.1 * \<bar>Min (set (y2 pos))\<bar>)) \<and>
         (xpad = Some 0 \<and> Min (set (x2 pos)) \<noteq> 0 \<longrightarrow>
            xlim_final a \<noteq> (Min (set (x2 pos)), Max (set (x2 pos)))) \<and>
         (ypad = Some 0 \<and> Min (set (y2 pos)) \<noteq> 0 \<longrightarrow>
            ylim_final a \<noteq> (Min (set (y2 pos)), Max (set (y2 pos)))) \<and>
         (\<forall>p. xpad = Some p \<and> p \<noteq> 0 \<longrightarrow>
            xlim_final a = (Min (set (x2 pos)) - p, Max (set (x2 pos)) + p)) \<and>
         (\<forall>p. ypad = Some p \<and> p \<noteq> 0 \<longrightarrow>
            ylim_final a = (Min (set (y2 pos)) - p, Max (set (y2 pos)) + p)) \<and>
         (\<forall>xl yl. make_animation t pos fps n_seconds decay_time (Some 0) ypad xl yl
                  = make_animation t pos fps n_seconds decay_time None ypad xl yl) \<and>
         (\<forall>xl yl. make_animation t pos fps n_seconds decay_time xpad (Some 0) xl yl
                  = make_animation t pos fps n_seconds decay_time xpad None xl yl)"
proof -
  from make_animation_success [OF assms]
  have xl: "xlim_final a = axis_limits (Min (set (x2 pos))) (Max (set (x2 pos))) xpad None"
    and yl: "ylim_final a = axis_limits (Min (set (y2 pos))) (Max (set (y2 pos))) ypad None"
    by simp_all
  have box: "axis_limits lo hi (Some 0) None = (lo - 0.1 * \<bar>lo\<bar>, hi + 0.1 * \<bar>lo\<bar>)" for lo hi
    by (simp add: axis_limits_def choose_pad_def truthy_float_def Let_def)
  have ne: "lo \<noteq> 0 \<Longrightarrow> axis_limits lo hi (Some 0) None \<noteq> (lo, hi)" for lo hi
    by (simp add: box)
  have pad: "p \<noteq> 0 \<Longrightarrow> axis_limits lo hi (Some p) None = (lo - p, hi + p)" for lo hi p
    by (simp add: axis_limits_def choose_pad_def truthy_float_def Let_def)
  have eq: "make_animation t pos fps n_seconds decay_time (Some 0) yp xl yl
              = make_animation t pos fps n_seconds decay_time None yp xl yl"
       "make_animation t pos fps n_seconds decay_time xp (Some 0) xl yl
              = make_animation t pos fps n_seconds decay_time xp None xl yl" for xp yp xl yl
    by (simp_all add: make_animation_def axis_limits_zero_pad cong: sum.case_cong)
  show ?thesis
    using xl yl box ne pad eq by auto
qed

theorem zero_padding_replaced_by_default_witness:
  "make_animation [0, 1] \<lparr>x1 = [1, 2], y1 = [3, 4], x2 = [- 10, 20], y2 = [- 20, 10]\<rparr>
     1 1 0 (Some 0) (Some 3) None None
   = Inr \<lparr> xlim_final = (- 11, 21), ylim_final = (- 23, 13), skip_used = 2,
           frames = [\<lparr> line1 = ([0, 1], [0, 3]), line2 = ([1, - 10], [3, - 20]),
                       scatter1 = [], scatter2 = [] \<rparr>] \<rparr> \<and>
   Min (set [- 10, 20 :: real]) \<noteq> 0 \<and>
   ((- 11, 21) :: real \<times> real) \<noteq> (Min (set [- 10, 20]), Max (set [- 10, 20])) \<and>
   ((- 11, 21) :: real \<times> real)
     = (Min (set [- 10, 20]) - 0.1 * \<bar>Min (set [- 10, 20])\<bar>,
        Max (set [- 10, 20]) + 0.1 * \<bar>Min (set [- 10, 20])\<bar>) \<and>
   ((- 23, 13) :: real \<times> real) = (Min (set [- 20, 10]) - 3, Max (set [- 20, 10]) + 3)"
proof -
  define F where "F = [\<lparr> line1 = ([0 :: real, 1], [0 :: real, 3]), line2 = ([1, - 10], [3, - 20]),
                       scatter1 = [], scatter2 = [] \<rparr>]"
  have run: "make_animation [0, 1] \<lparr>x1 = [1, 2], y1 = [3, 4], x2 = [- 10, 20], y2 = [- 20, 10]\<rparr>
     1 1 0 (Some 0) (Some 3) None None
   = Inr \<lparr> xlim_final = (- 11, 21), ylim_final = (- 23, 13), skip_used = 2, frames = F \<rparr>"
    by (simp add: F_def eval_defs truthy_float_def)
  from zero_padding_replaced_by_default [OF run] run show ?thesis
    by (simp add: F_def)
qed

subsection \<open>Display\<close>

text \<open>
  C10. \<open>show_animation\<close> returns an \<open>HTML\<close> object whose markup is the \<open>img\<close> tag with
  the given path as its \<open>src\<close>, for every path; it never returns \<open>None\<close>.
\<close>

theorem show_animation_returns_html:
  "show_animation animation_path
     = HTML (''<img alt='' @ [CHR 0x22] @ ''spring double pendulum animation'' @ [CHR 0x22]
             @ '' src='' @ animation_path @ ''>'') \<and>
   show_animation animation_path \<noteq> PyNone"
  by (simp add: show_animation_def)

subsection \<open>Angle conversions\<close>

text \<open>
  C7 (amended). For every float \<open>x\<close> with \<open>\<bar>x\<bar> \<le> 10^6\<close> the round trip
  \<open>rad_to_deg(deg_to_rad(x))\<close> is finite and less than \<open>1e-9\<close> away from \<open>x\<close>. It is not so
  for every finite \<open>x\<close>: when \<open>x * np.pi\<close> reaches \<open>2^1024\<close> the result is \<open>inf\<close>.
\<close>

theorem round_trip_within_tolerance:
  "(\<bar>x\<bar> \<le> 1000000 \<longrightarrow> within_tolerance (rad_to_deg (deg_to_rad (Fin x))) x) \<and>
   (2 powr 1024 \<le> x * np_pi \<longrightarrow> rad_to_deg (deg_to_rad (Fin x)) = PosInf)"
proof (intro conjI impI)
  assume "\<bar>x\<bar> \<le> 1000000"
  from round_trip_error [OF this]
  show "within_tolerance (rad_to_deg (deg_to_rad (Fin x))) x"
    by (simp add: within_tolerance_def)
next
  assume "2 powr 1024 \<le> x * np_pi"
  then show "rad_to_deg (deg_to_rad (Fin x)) = PosInf"
    by (rule deg_to_rad_overflow)
qed

theorem round_trip_within_tolerance_witness:
  "\<bar>90 :: real\<bar> \<le> 1000000 \<and> within_tolerance (rad_to_deg (deg_to_rad (Fin 90))) 90 \<and>
   (2::real) powr 1024 \<le> 2 powr 1023 * np_pi \<and>
   rad_to_deg (deg_to_rad (Fin (2 powr 1023))) = PosInf"
  using round_trip_within_tolerance [of 90] round_trip_within_tolerance [of "2 powr 1023"]
    pi_overflow_at_2_1023
  by simp

text \<open>
  Two finite floats outside the tolerance: at \<open>x = 85997966.63725433\<close>
  (\<open>2885612923668019 / 2^25\<close>) the four roundings give \<open>85997966.63725431\<close>, which is
  \<open>2^-26\<close> (about \<open>1.49e-8\<close>) below \<open>x\<close>; at \<open>x = 2^1023\<close> the product \<open>x * np.pi\<close> overflows
  and the result is \<open>inf\<close>.
\<close>

theorem round_trip_counterexample:
  "round_double (2885612923668019 / 33554432) = Fin (2885612923668019 / 33554432) \<and>
   rad_to_deg (deg_to_rad (Fin (2885612923668019 / 33554432)))
     = Fin (5771225847336037 / 67108864) \<and>
   \<not> within_tolerance (rad_to_deg (deg_to_rad (Fin (2885612923668019 / 33554432))))
       (2885612923668019 / 33554432) \<and>
   round_double (2 powr 1023) = Fin (2 powr 1023) \<and>
   rad_to_deg (deg_to_rad (Fin (2 powr 1023))) = PosInf \<and>
   \<not> within_tolerance (rad_to_deg (deg_to_rad (Fin (2 powr 1023)))) (2 powr 1023)"
proof -
  have mx: "\<bar>2885612923668019 / 33554432 :: real\<bar> \<le> 1000000000" by simp
  have x: "round_double (2885612923668019 / 33554432) = Fin (2885612923668019 / 33554432)"
    using round_double_finite [OF mx] by (simp only: round_real_sample_input)
  have ma: "\<bar>2885612923668019 / 33554432 * np_pi\<bar> \<le> 1000000000"
    by (simp add: np_pi_def)
  have a: "round_double (2885612923668019 / 33554432 * np_pi) = Fin (2266355090524803 / 8388608)"
    using round_double_finite [OF ma] by (simp only: round_real_sample_mul_pi)
  have mb: "\<bar>2266355090524803 / 8388608 / 180 :: real\<bar> \<le> 1000000000" by simp
  have b: "round_double (2266355090524803 / 8388608 / 180) = Fin (3223260573190831 / 2147483648)"
    using round_double_finite [OF mb] by (simp only: round_real_sample_div_180)
  have mc: "\<bar>3223260573190831 / 2147483648 * 180 :: real\<bar> \<le> 1000000000" by simp
  have c: "round_double (3223260573190831 / 2147483648 * 180) = Fin (2266355090524803 / 8388608)"
    using round_double_finite [OF mc] by (simp only: round_real_sample_mul_180)
  have md: "\<bar>2266355090524803 / 8388608 / np_pi\<bar> \<le> 1000000000"
    by (simp add: np_pi_def)
  have d: "round_double (2266355090524803 / 8388608 / np_pi) = Fin (5771225847336037 / 67108864)"
    using round_double_finite [OF md] by (simp only: round_real_sample_div_pi)
  have rt: "rad_to_deg (deg_to_rad (Fin (2885612923668019 / 33554432)))
     = Fin (5771225847336037 / 67108864)"
    by (simp only: rad_to_deg_def deg_to_rad_def mul_const_def div_const_def pyfloat.case a b c d)
  have far: "\<not> within_tolerance (Fin (5771225847336037 / 67108864)) (2885612923668019 / 33554432)"
    by (simp add: within_tolerance_def)
  have inf: "rad_to_deg (deg_to_rad (Fin (2 powr 1023))) = PosInf"
    by (rule deg_to_rad_overflow [OF pi_overflow_at_2_1023])
  show ?thesis
    using x rt far double_2_1023 inf by (simp add: within_tolerance_def)
qed

end
